theory Spec2Isabelle
  imports Main "HOL-Library.Signed_Division"
begin

section \<open>The Snake widget of src/app/components/SnakeGame.tsx\<close>

text \<open>
  A shallow embedding of the React component \<^verbatim>\<open>SnakeGame\<close>. Coordinates are JavaScript
  numbers that only ever hold small integers, so they are \<open>int\<close>; the operator \<^verbatim>\<open>%\<close>
  is the truncating remainder \<open>smod\<close> (the sign follows the dividend).
\<close>

subsection \<open>Cells and constants\<close>

record cell =
  x :: int
  y :: int

definition BOARD_SIZE :: int where
  "BOARD_SIZE = 15"

definition INITIAL_SNAKE :: "cell list" where
  "INITIAL_SNAKE = [\<lparr>x = 7, y = 7\<rparr>]"

definition INITIAL_DIRECTION :: cell where
  "INITIAL_DIRECTION = \<lparr>x = 0, y = - 1\<rparr>"

subsection \<open>Food placement\<close>

text \<open>
  \<^verbatim>\<open>getRandomFood\<close> is a do-while loop around two calls of
  \<^verbatim>\<open>Math.floor(Math.random() * BOARD_SIZE)\<close>. The second argument is the sequence of
  values those calls return, in order; the loop consumes two of them per round. The result
  is the cell returned together with the values not yet consumed, and \<open>None\<close> when the
  loop is still running after the whole sequence has been consumed.
\<close>

fun getRandomFood :: "cell list \<Rightarrow> int list \<Rightarrow> (cell \<times> int list) option" where
  "getRandomFood snake (a # b # rest) =
     (let newFood = \<lparr>x = a, y = b\<rparr>
      in if list_ex (\<lambda>s. x s = x newFood \<and> y s = y newFood) snake
         then getRandomFood snake rest
         else Some (newFood, rest))"
| "getRandomFood snake _ = None"

subsection \<open>Component state\<close>

text \<open>
  The six \<^verbatim>\<open>useState\<close> values, the four \<^verbatim>\<open>useRef\<close> cells, the two closure variables
  of the touch effect, and the values \<^verbatim>\<open>Math.random\<close> has yet to return.
\<close>

record game =
  snake :: "cell list"
  direction :: cell
  food :: cell
  score :: int
  gameOver :: bool
  isPlaying :: bool
  moveRef :: cell
  gameOverRef :: bool
  foodRef :: cell
  isPlayingRef :: bool
  startX :: int
  startY :: int
  random :: "int list"

datatype failure = TypeError | Hang

text \<open>The three modes the spec names, read off the two booleans as the render does.\<close>

datatype GameStatus = NotStarted | Running | GameOver

definition status :: "game \<Rightarrow> GameStatus" where
  "status s = (if gameOver s then GameOver else if isPlaying s then Running else NotStarted)"

text \<open>The effect commented "Keep refs in sync", run after every render.\<close>

definition syncRefs :: "game \<Rightarrow> game" where
  "syncRefs s = s\<lparr>moveRef := direction s, gameOverRef := gameOver s,
                  foodRef := food s, isPlayingRef := isPlaying s\<rparr>"

text \<open>The first render: the initial values of the state hooks and of the refs.\<close>

definition mount :: "int list \<Rightarrow> failure + game" where
  "mount rnd =
     (case getRandomFood INITIAL_SNAKE rnd of
        None \<Rightarrow> Inl Hang
      | Some (newFood, rest) \<Rightarrow>
          Inr \<lparr>snake = INITIAL_SNAKE, direction = INITIAL_DIRECTION, food = newFood,
               score = 0, gameOver = False, isPlaying = False,
               moveRef = INITIAL_DIRECTION, gameOverRef = False, foodRef = newFood,
               isPlayingRef = False, startX = 0, startY = 0, random = rest\<rparr>)"

subsection \<open>Input handlers\<close>

definition handleKey :: "string \<Rightarrow> game \<Rightarrow> game" where
  "handleKey key s =
     (if gameOverRef s then s
      else
        let s1 = (if \<not> isPlayingRef s then s\<lparr>isPlaying := True\<rparr> else s)
        in if key = ''ArrowUp'' \<or> key = ''w'' \<or> key = ''W'' then
             (if y (moveRef s) \<noteq> 1 then s1\<lparr>direction := \<lparr>x = 0, y = - 1\<rparr>\<rparr> else s1)
           else if key = ''ArrowDown'' \<or> key = ''s'' \<or> key = ''S'' then
             (if y (moveRef s) \<noteq> - 1 then s1\<lparr>direction := \<lparr>x = 0, y = 1\<rparr>\<rparr> else s1)
           else if key = ''ArrowLeft'' \<or> key = ''a'' \<or> key = ''A'' then
             (if x (moveRef s) \<noteq> 1 then s1\<lparr>direction := \<lparr>x = - 1, y = 0\<rparr>\<rparr> else s1)
           else if key = ''ArrowRight'' \<or> key = ''d'' \<or> key = ''D'' then
             (if x (moveRef s) \<noteq> - 1 then s1\<lparr>direction := \<lparr>x = 1, y = 0\<rparr>\<rparr> else s1)
           else s1)"

definition handleTouchStart :: "int \<Rightarrow> int \<Rightarrow> game \<Rightarrow> game" where
  "handleTouchStart clientX clientY s = s\<lparr>startX := clientX, startY := clientY\<rparr>"

definition handleTouchEnd :: "int \<Rightarrow> int \<Rightarrow> game \<Rightarrow> game" where
  "handleTouchEnd clientX clientY s =
     (if gameOverRef s then s
      else
        let s1 = (if \<not> isPlayingRef s then s\<lparr>isPlaying := True\<rparr> else s);
            dx = clientX - startX s;
            dy = clientY - startY s
        in if \<bar>dx\<bar> > \<bar>dy\<bar> then
             (if dx > 20 \<and> x (moveRef s) \<noteq> - 1 then s1\<lparr>direction := \<lparr>x = 1, y = 0\<rparr>\<rparr>
              else if dx < - 20 \<and> x (moveRef s) \<noteq> 1 then s1\<lparr>direction := \<lparr>x = - 1, y = 0\<rparr>\<rparr>
              else s1)
           else
             (if dy > 20 \<and> y (moveRef s) \<noteq> - 1 then s1\<lparr>direction := \<lparr>x = 0, y = 1\<rparr>\<rparr>
              else if dy < - 20 \<and> y (moveRef s) \<noteq> 1 then s1\<lparr>direction := \<lparr>x = 0, y = - 1\<rparr>\<rparr>
              else s1))"

subsection \<open>The game loop\<close>

text \<open>The head computed at the top of the \<^verbatim>\<open>setSnake\<close> updater.\<close>

definition newHead :: "cell \<Rightarrow> cell \<Rightarrow> cell" where
  "newHead h dir =
     \<lparr>x = (x h + x dir + BOARD_SIZE) smod BOARD_SIZE,
      y = (y h + y dir + BOARD_SIZE) smod BOARD_SIZE\<rparr>"

text \<open>
  The interval callback: the \<^verbatim>\<open>setSnake\<close> updater with the state setters it calls.
  \<^verbatim>\<open>prev[0].x\<close> on an empty array throws a TypeError.
\<close>

definition intervalCallback :: "game \<Rightarrow> failure + game" where
  "intervalCallback s =
     (case snake s of
        [] \<Rightarrow> Inl TypeError
      | h # _ \<Rightarrow>
          let prev = snake s;
              nh = newHead h (direction s)
          in if list_ex (\<lambda>c. x c = x nh \<and> y c = y nh) prev then
               Inr (s\<lparr>gameOver := True\<rparr>)
             else if x nh = x (foodRef s) \<and> y nh = y (foodRef s) then
               (let newSnake = nh # prev
                in case getRandomFood newSnake (random s) of
                     None \<Rightarrow> Inl Hang
                   | Some (newFood, rest) \<Rightarrow>
                       Inr (s\<lparr>snake := newSnake, food := newFood,
                              score := score s + 1, random := rest\<rparr>))
             else Inr (s\<lparr>snake := nh # butlast prev\<rparr>))"

text \<open>
  The game-loop effect installs the interval only when \<^verbatim>\<open>gameOver || !isPlaying\<close> is
  false, so a period that elapses in any other state runs nothing.
\<close>

definition tick :: "game \<Rightarrow> failure + game" where
  "tick s = (if gameOver s \<or> \<not> isPlaying s then Inr s else intervalCallback s)"

definition handleRestart :: "game \<Rightarrow> failure + game" where
  "handleRestart s =
     (let newSnake = INITIAL_SNAKE
      in case getRandomFood newSnake (random s) of
           None \<Rightarrow> Inl Hang
         | Some (newFood, rest) \<Rightarrow>
             Inr (s\<lparr>snake := newSnake, direction := INITIAL_DIRECTION, food := newFood,
                    score := 0, gameOver := False, isPlaying := False, random := rest\<rparr>))"

subsection \<open>Events\<close>

text \<open>
  One event of the browser's event loop: the handler runs, React renders, and the effects
  of that render run (among them \<open>syncRefs\<close>) before the next event is delivered. The
  "Play Again" button is rendered only while \<^verbatim>\<open>gameOver\<close> holds.
\<close>

datatype event = KeyDown string | TouchStart int int | TouchEnd int int | Tick | Restart

definition rendered :: "failure + game \<Rightarrow> failure + game" where
  "rendered r = (case r of Inl e \<Rightarrow> Inl e | Inr s \<Rightarrow> Inr (syncRefs s))"

fun step :: "event \<Rightarrow> game \<Rightarrow> failure + game" where
  "step (KeyDown key) s = rendered (Inr (handleKey key s))"
| "step (TouchStart clientX clientY) s = rendered (Inr (handleTouchStart clientX clientY s))"
| "step (TouchEnd clientX clientY) s = rendered (Inr (handleTouchEnd clientX clientY s))"
| "step Tick s = rendered (tick s)"
| "step Restart s = (if gameOver s then rendered (handleRestart s) else Inr s)"

fun run :: "event list \<Rightarrow> game \<Rightarrow> failure + game" where
  "run [] s = Inr s"
| "run (e # es) s = (case step e s of Inl err \<Rightarrow> Inl err | Inr s' \<Rightarrow> run es s')"

inductive reachable :: "game \<Rightarrow> bool" where
  reachable_mount: "mount rnd = Inr s \<Longrightarrow> reachable s"
| reachable_step: "reachable s \<Longrightarrow> step e s = Inr s' \<Longrightarrow> reachable s'"

text \<open>What the spec calls a cell of the board, a unit direction, and its negation.\<close>

definition onBoard :: "cell \<Rightarrow> bool" where
  "onBoard c = (0 \<le> x c \<and> x c < BOARD_SIZE \<and> 0 \<le> y c \<and> y c < BOARD_SIZE)"

definition unitDirections :: "cell list" where
  "unitDirections = [\<lparr>x = 0, y = - 1\<rparr>, \<lparr>x = 0, y = 1\<rparr>, \<lparr>x = - 1, y = 0\<rparr>, \<lparr>x = 1, y = 0\<rparr>]"

definition opposite :: "cell \<Rightarrow> cell" where
  "opposite d = \<lparr>x = - x d, y = - y d\<rparr>"

text \<open>The refs hold the values of the last render.\<close>

definition synced :: "game \<Rightarrow> bool" where
  "synced s = (moveRef s = direction s \<and> gameOverRef s = gameOver s \<and>
               foodRef s = food s \<and> isPlayingRef s = isPlaying s)"

text \<open>The cells a sequence of random values stands for, two values per cell.\<close>

fun draws :: "int list \<Rightarrow> cell list" where
  "draws (a # b # rest) = \<lparr>x = a, y = b\<rparr> # draws rest"
| "draws _ = []"

definition inRange :: "int list \<Rightarrow> bool" where
  "inRange rnd = list_all (\<lambda>v. 0 \<le> v \<and> v < BOARD_SIZE) rnd"

text \<open>Properties that every state the component can be in has.\<close>

definition wellFormed :: "game \<Rightarrow> bool" where
  "wellFormed s =
     (synced s \<and> snake s \<noteq> [] \<and> direction s \<in> set unitDirections \<and>
      list_all onBoard (snake s) \<and> distinct (snake s) \<and>
      int (length (snake s)) = score s + 1 \<and>
      (gameOver s \<longrightarrow> 2 \<le> length (snake s)) \<and>
      food s \<notin> set (snake s))"

subsection \<open>Vocabulary of the spec and example states\<close>

text \<open>The keys the spec calls directional; every other key is malformed input.\<close>

definition directionKeys :: "string list" where
  "directionKeys = [''ArrowUp'', ''w'', ''W'', ''ArrowDown'', ''s'', ''S'',
                    ''ArrowLeft'', ''a'', ''A'', ''ArrowRight'', ''d'', ''D'']"


text \<open>A state between two events (refs in sync), no touch recorded yet.\<close>

definition gameOf ::
  "cell list \<Rightarrow> cell \<Rightarrow> cell \<Rightarrow> int \<Rightarrow> bool \<Rightarrow> bool \<Rightarrow> int list \<Rightarrow> game" where
  "gameOf sn dir fd sc go pl rnd =
     \<lparr>snake = sn, direction = dir, food = fd, score = sc, gameOver = go, isPlaying = pl,
      moveRef = dir, gameOverRef = go, foodRef = fd, isPlayingRef = pl,
      startX = 0, startY = 0, random = rnd\<rparr>"

text \<open>
  The game mounted with random values 7 7 7 6 3 3 7 7 4 4 (the first cell drawn is
  rejected), then started with ArrowUp, after one tick, after ArrowLeft and ArrowDown, and
  after one more tick; then restarted, woken by the key x, and after one more tick.
\<close>

definition exStart :: game where
  "exStart = gameOf [\<lparr>x = 7, y = 7\<rparr>] \<lparr>x = 0, y = - 1\<rparr> \<lparr>x = 7, y = 6\<rparr> 0 False False [3, 3, 7, 7, 4, 4]"

definition exRunning :: game where
  "exRunning = gameOf [\<lparr>x = 7, y = 7\<rparr>] \<lparr>x = 0, y = - 1\<rparr> \<lparr>x = 7, y = 6\<rparr> 0 False True [3, 3, 7, 7, 4, 4]"

definition exGrown :: game where
  "exGrown = gameOf [\<lparr>x = 7, y = 6\<rparr>, \<lparr>x = 7, y = 7\<rparr>] \<lparr>x = 0, y = - 1\<rparr> \<lparr>x = 3, y = 3\<rparr> 1 False True [7, 7, 4, 4]"

definition exReversed :: game where
  "exReversed = gameOf [\<lparr>x = 7, y = 6\<rparr>, \<lparr>x = 7, y = 7\<rparr>] \<lparr>x = 0, y = 1\<rparr> \<lparr>x = 3, y = 3\<rparr> 1 False True [7, 7, 4, 4]"

definition exOver :: game where
  "exOver = gameOf [\<lparr>x = 7, y = 6\<rparr>, \<lparr>x = 7, y = 7\<rparr>] \<lparr>x = 0, y = 1\<rparr> \<lparr>x = 3, y = 3\<rparr> 1 True True [7, 7, 4, 4]"

definition exRestarted :: game where
  "exRestarted = gameOf [\<lparr>x = 7, y = 7\<rparr>] \<lparr>x = 0, y = - 1\<rparr> \<lparr>x = 4, y = 4\<rparr> 0 False False []"

definition exResumed :: game where
  "exResumed = gameOf [\<lparr>x = 7, y = 7\<rparr>] \<lparr>x = 0, y = - 1\<rparr> \<lparr>x = 4, y = 4\<rparr> 0 False True []"

definition exMoved :: game where
  "exMoved = gameOf [\<lparr>x = 7, y = 6\<rparr>] \<lparr>x = 0, y = - 1\<rparr> \<lparr>x = 4, y = 4\<rparr> 0 False True []"

text \<open>A snake of length 3 heading down into its second segment, and one about to step on
  its own tail.\<close>

definition exNeck :: game where
  "exNeck = gameOf [\<lparr>x = 7, y = 6\<rparr>, \<lparr>x = 7, y = 7\<rparr>, \<lparr>x = 7, y = 8\<rparr>] \<lparr>x = 0, y = 1\<rparr>
              \<lparr>x = 3, y = 3\<rparr> 2 False True [5, 5]"

definition exTail :: game where
  "exTail = gameOf [\<lparr>x = 7, y = 7\<rparr>, \<lparr>x = 8, y = 7\<rparr>, \<lparr>x = 8, y = 8\<rparr>, \<lparr>x = 7, y = 8\<rparr>]
              \<lparr>x = 0, y = 1\<rparr> \<lparr>x = 3, y = 3\<rparr> 3 False True [5, 5]"

text \<open>A snake at the top edge heading up, away from the food.\<close>

definition exEdge :: game where
  "exEdge = gameOf [\<lparr>x = 7, y = 0\<rparr>, \<lparr>x = 7, y = 1\<rparr>] \<lparr>x = 0, y = - 1\<rparr> \<lparr>x = 3, y = 3\<rparr> 1 False True []"

subsection \<open>The full board\<close>

text \<open>Every cell of the board, and a snake that lies on all of them.\<close>

definition allCells :: "cell list" where
  "allCells =
     concat (map (\<lambda>i. map (\<lambda>j. \<lparr>x = i, y = j\<rparr>) [0..BOARD_SIZE - 1]) [0..BOARD_SIZE - 1])"

definition boardFull :: "cell list \<Rightarrow> bool" where
  "boardFull sn = list_all (\<lambda>c. c \<in> set sn) allCells"

text \<open>
  A tour of the torus from (7,7): up a whole column, one step right, up the next column,
  and so on. \<open>pathCell k\<close> is its cell number \<open>k\<close>, \<open>pathSnake n\<close> the snake that has
  walked its first \<open>n\<close> cells, \<open>pathDraws m n\<close> the random values that place the food on
  cells \<open>m\<close> to \<open>n\<close> in turn, and \<open>fillEvents\<close> the key presses and 223 ticks of a player
  who follows the tour.
\<close>

definition pathCell :: "int \<Rightarrow> cell" where
  "pathCell k = \<lparr>x = (7 + k div 15) mod 15, y = (7 + k div 15 - k mod 15) mod 15\<rparr>"

definition pathSnake :: "int \<Rightarrow> cell list" where
  "pathSnake n = map pathCell (rev [0..n - 1])"

definition pathDraws :: "int \<Rightarrow> int \<Rightarrow> int list" where
  "pathDraws m n = concat (map (\<lambda>k. [x (pathCell k), y (pathCell k)]) [m..n])"

definition lap :: "event list" where
  "lap = [KeyDown ''ArrowRight'', Tick, KeyDown ''ArrowUp''] @ replicate 14 Tick"

definition fillEvents :: "event list" where
  "fillEvents = KeyDown ''ArrowUp'' # replicate 14 Tick @ concat (replicate 13 lap) @
     [KeyDown ''ArrowRight'', Tick, KeyDown ''ArrowUp''] @ replicate 13 Tick"

text \<open>
  The game after that run, with four random values left: the snake lies on 224 cells,
  its head is at (6,8) heading up, and the food is on the last free cell, (6,7).
\<close>

definition exFillStart :: game where
  "exFillStart = gameOf [\<lparr>x = 7, y = 7\<rparr>] \<lparr>x = 0, y = - 1\<rparr> \<lparr>x = 7, y = 6\<rparr> 0 False False
                   (pathDraws 2 224 @ [0, 0, 3, 4])"

definition almostFull :: game where
  "almostFull = gameOf (pathSnake 224) \<lparr>x = 0, y = - 1\<rparr> \<lparr>x = 6, y = 7\<rparr> 223 False True
                  [0, 0, 3, 4]"

section \<open>Properties\<close>

subsection \<open>Cells and wrapping\<close>

lemma cell_eq_iff: "(c = d) = (x c = x d \<and> y c = y d)" for c d :: cell
  by auto

lemma list_ex_cell: "list_ex (\<lambda>c. x c = x (n::cell) \<and> y c = y n) cs = (n \<in> set cs)"
  by (induction cs) (auto simp: cell_eq_iff)

lemma smod_nonneg: "0 \<le> k \<Longrightarrow> 0 < l \<Longrightarrow> k smod l = k mod l" for k l :: int
  by (cases "k = 0") (simp_all add: signed_modulo_int_def)

lemma unitDirections_cases:
  "d \<in> set unitDirections \<longleftrightarrow>
     d = \<lparr>x = 0, y = - 1\<rparr> \<or> d = \<lparr>x = 0, y = 1\<rparr> \<or> d = \<lparr>x = - 1, y = 0\<rparr> \<or> d = \<lparr>x = 1, y = 0\<rparr>"
  by (auto simp: unitDirections_def)

lemma wrap_coord:
  fixes a e :: int
  assumes "0 \<le> a" "a < 15" "- 1 \<le> e" "e \<le> 1"
  shows "(a + e + 15) smod 15 = (a + e) mod 15"
proof -
  have "(a + e + 15) smod 15 = (a + e + 15) mod 15"
    using assms by (intro smod_nonneg) simp_all
  then show ?thesis by simp
qed

lemma unit_bounds:
  assumes "d \<in> set unitDirections"
  shows "- 1 \<le> x d \<and> x d \<le> 1 \<and> - 1 \<le> y d \<and> y d \<le> 1"
  using assms by (auto simp: unitDirections_cases)

lemma newHead_mod:
  assumes "onBoard h" "d \<in> set unitDirections"
  shows "newHead h d = \<lparr>x = (x h + x d) mod BOARD_SIZE, y = (y h + y d) mod BOARD_SIZE\<rparr>"
  using assms(1) unit_bounds[OF assms(2)]
  by (simp add: newHead_def onBoard_def BOARD_SIZE_def wrap_coord)

lemma newHead_onBoard:
  assumes "onBoard h" "d \<in> set unitDirections"
  shows "onBoard (newHead h d)"
  unfolding newHead_mod[OF assms] 
  by (simp add: onBoard_def BOARD_SIZE_def)

lemma shift_coord_neq:
  fixes a e :: int
  assumes "e = 1 \<or> e = - 1"
  shows "(a + e + 15) smod 15 \<noteq> a"
  using assms
  by (auto simp: signed_modulo_int_def sgn_if abs_if split: if_splits) presburger+

lemma newHead_neq:
  assumes "d \<in> set unitDirections"
  shows "newHead h d \<noteq> h"
  using assms shift_coord_neq[of 1 "x h"] shift_coord_neq[of "-1" "x h"]
    shift_coord_neq[of 1 "y h"] shift_coord_neq[of "-1" "y h"]
  by (auto simp: newHead_def BOARD_SIZE_def unitDirections_cases cell_eq_iff)

subsection \<open>Rejection sampling\<close>

lemma list_ex_xy: "list_ex (\<lambda>s. x s = a \<and> y s = b) sn = (\<lparr>x = a, y = b\<rparr> \<in> set sn)"
  using list_ex_cell[of "\<lparr>x = a, y = b\<rparr>" sn] by simp

lemma getRandomFood_step:
  "getRandomFood sn (a # b # rest) =
     (if \<lparr>x = a, y = b\<rparr> \<in> set sn then getRandomFood sn rest else Some (\<lparr>x = a, y = b\<rparr>, rest))"
  by (simp add: list_ex_xy)

lemma getRandomFood_sound:
  "getRandomFood sn rnd = Some (f, rest) \<Longrightarrow>
     f \<notin> set sn \<and>
     (\<exists>rej. rnd = rej @ x f # y f # rest \<and> set (draws rej) \<subseteq> set sn \<and> even (length rej))"
proof (induction sn rnd rule: getRandomFood.induct)
  case (1 sn a b more)
  show ?case
  proof (cases "\<lparr>x = a, y = b\<rparr> \<in> set sn")
    case True
    with 1 have "getRandomFood sn more = Some (f, rest)"
      by (simp add: list_ex_xy)
    with 1 True obtain rej where r: "f \<notin> set sn" "more = rej @ x f # y f # rest"
      "set (draws rej) \<subseteq> set sn" "even (length rej)"
      by (auto simp: list_ex_xy Let_def)
    have "a # b # more = (a # b # rej) @ x f # y f # rest" using r by simp
    moreover have "set (draws (a # b # rej)) \<subseteq> set sn" using r True by simp
    moreover have "even (length (a # b # rej))" using r by simp
    ultimately show ?thesis using r(1) by blast
  next
    case False
    with 1 have "f = \<lparr>x = a, y = b\<rparr>" "rest = more"
      by (simp_all add: list_ex_xy)
    then have "a # b # more = [] @ x f # y f # rest" by simp
    moreover have "set (draws []) \<subseteq> set sn" by simp
    moreover have "even (length ([]::int list))" by simp
    ultimately show ?thesis using False \<open>f = \<lparr>x = a, y = b\<rparr>\<close>
      by blast
  qed
qed simp_all

lemma getRandomFood_returns:
  "\<exists>c \<in> set (draws rnd). c \<notin> set sn \<Longrightarrow> \<exists>f rest. getRandomFood sn rnd = Some (f, rest)"
  by (induction sn rnd rule: getRandomFood.induct) (auto simp: list_ex_xy Let_def)

lemma getRandomFood_None:
  "getRandomFood sn rnd = None \<longleftrightarrow> set (draws rnd) \<subseteq> set sn"
  by (induction sn rnd rule: getRandomFood.induct) (auto simp: list_ex_xy Let_def)

lemma getRandomFood_inRange:
  "getRandomFood sn rnd = Some (f, rest) \<Longrightarrow> inRange rnd \<Longrightarrow> onBoard f \<and> inRange rest"
  by (induction sn rnd rule: getRandomFood.induct)
     (auto simp: list_ex_xy Let_def inRange_def onBoard_def split: if_splits)

subsection \<open>The interval callback, branch by branch\<close>

lemma list_ex_eq: "list_ex (\<lambda>c. c = n) cs = (n \<in> set cs)"
  by (induction cs) auto

lemma intervalCallback_eq:
  assumes "snake s = h # t"
  shows "intervalCallback s =
     (if newHead h (direction s) \<in> set (snake s) then Inr (s\<lparr>gameOver := True\<rparr>)
      else if newHead h (direction s) = foodRef s then
        (case getRandomFood (newHead h (direction s) # snake s) (random s) of
           None \<Rightarrow> Inl Hang
         | Some (newFood, rest) \<Rightarrow>
             Inr (s\<lparr>snake := newHead h (direction s) # snake s, food := newFood,
                    score := score s + 1, random := rest\<rparr>))
      else Inr (s\<lparr>snake := newHead h (direction s) # butlast (snake s)\<rparr>))"
  unfolding intervalCallback_def Let_def cell_eq_iff[symmetric] list_ex_eq
  using assms by simp

lemma intervalCallback_collision:
  assumes "snake s = h # t" "newHead h (direction s) \<in> set (snake s)"
  shows "intervalCallback s = Inr (s\<lparr>gameOver := True\<rparr>)"
  using assms(2) by (simp add: intervalCallback_eq[OF assms(1)])

lemma intervalCallback_food:
  assumes "snake s = h # t" "newHead h (direction s) \<notin> set (snake s)"
    and "newHead h (direction s) = foodRef s"
  shows "intervalCallback s =
     (case getRandomFood (newHead h (direction s) # snake s) (random s) of
        None \<Rightarrow> Inl Hang
      | Some (newFood, rest) \<Rightarrow>
          Inr (s\<lparr>snake := newHead h (direction s) # snake s, food := newFood,
                 score := score s + 1, random := rest\<rparr>))"
  using assms(2,3) by (simp add: intervalCallback_eq[OF assms(1)])

lemma intervalCallback_move:
  assumes "snake s = h # t" "newHead h (direction s) \<notin> set (snake s)"
    and "newHead h (direction s) \<noteq> foodRef s"
  shows "intervalCallback s = Inr (s\<lparr>snake := newHead h (direction s) # butlast (snake s)\<rparr>)"
  using assms(2,3) by (simp add: intervalCallback_eq[OF assms(1)])

subsection \<open>Invariants\<close>

lemma wellFormed_syncRefs:
  assumes "snake t \<noteq> []" "direction t \<in> set unitDirections" "list_all onBoard (snake t)"
    "distinct (snake t)" "int (length (snake t)) = score t + 1"
    "gameOver t \<longrightarrow> 2 \<le> length (snake t)" "food t \<notin> set (snake t)"
  shows "wellFormed (syncRefs t)"
  using assms by (simp add: wellFormed_def synced_def syncRefs_def)

lemma unit_mem:
  "\<lparr>x = 0, y = - 1\<rparr> \<in> set unitDirections" "\<lparr>x = 0, y = 1\<rparr> \<in> set unitDirections"
  "\<lparr>x = - 1, y = 0\<rparr> \<in> set unitDirections" "\<lparr>x = 1, y = 0\<rparr> \<in> set unitDirections"
  by (simp_all add: unitDirections_def)

lemma handleKey_cases:
  assumes "Q s" "Q (s\<lparr>isPlaying := True\<rparr>)"
    and "\<And>d. d \<in> set unitDirections \<Longrightarrow> Q (s\<lparr>direction := d\<rparr>)"
    and "\<And>d. d \<in> set unitDirections \<Longrightarrow> Q (s\<lparr>isPlaying := True, direction := d\<rparr>)"
  shows "Q (handleKey k s)"
  unfolding handleKey_def Let_def
  by (simp add: assms unit_mem)

lemma handleTouchEnd_cases:
  assumes "Q s" "Q (s\<lparr>isPlaying := True\<rparr>)"
    and "\<And>d. d \<in> set unitDirections \<Longrightarrow> Q (s\<lparr>direction := d\<rparr>)"
    and "\<And>d. d \<in> set unitDirections \<Longrightarrow> Q (s\<lparr>isPlaying := True, direction := d\<rparr>)"
  shows "Q (handleTouchEnd a b s)"
  unfolding handleTouchEnd_def Let_def
  by (simp add: assms unit_mem)

lemma handleKey_fields:
  "snake (handleKey k s) = snake s \<and> food (handleKey k s) = food s \<and>
   score (handleKey k s) = score s \<and> gameOver (handleKey k s) = gameOver s \<and>
   random (handleKey k s) = random s"
  by (rule handleKey_cases) simp_all

lemma handleKey_direction:
  "direction s \<in> set unitDirections \<Longrightarrow> direction (handleKey k s) \<in> set unitDirections"
  by (rule handleKey_cases) simp_all

lemma handleTouchEnd_fields:
  "snake (handleTouchEnd a b s) = snake s \<and> food (handleTouchEnd a b s) = food s \<and>
   score (handleTouchEnd a b s) = score s \<and> gameOver (handleTouchEnd a b s) = gameOver s \<and>
   random (handleTouchEnd a b s) = random s"
  by (rule handleTouchEnd_cases) simp_all

lemma handleTouchEnd_direction:
  "direction s \<in> set unitDirections \<Longrightarrow> direction (handleTouchEnd a b s) \<in> set unitDirections"
  by (rule handleTouchEnd_cases) simp_all

lemma wellFormed_mount:
  assumes "mount rnd = Inr s"
  shows "wellFormed s"
proof -
  from assms obtain f rest where g: "getRandomFood INITIAL_SNAKE rnd = Some (f, rest)"
    by (auto simp: mount_def split: option.splits)
  then have "f \<notin> set INITIAL_SNAKE" using getRandomFood_sound by blast
  with assms g show ?thesis
    by (auto simp: mount_def wellFormed_def synced_def INITIAL_SNAKE_def INITIAL_DIRECTION_def
        unitDirections_def onBoard_def BOARD_SIZE_def)
qed

lemma wellFormed_handleRestart:
  assumes "handleRestart s = Inr t"
  shows "wellFormed (syncRefs t)"
proof -
  from assms obtain f rest where g: "getRandomFood INITIAL_SNAKE (random s) = Some (f, rest)"
    by (auto simp: handleRestart_def split: option.splits)
  then have "f \<notin> set INITIAL_SNAKE" using getRandomFood_sound by blast
  with assms g show ?thesis
    by (intro wellFormed_syncRefs)
       (auto simp: handleRestart_def INITIAL_SNAKE_def INITIAL_DIRECTION_def
        unitDirections_def onBoard_def BOARD_SIZE_def)
qed

lemma wellFormed_tick:
  assumes wf: "wellFormed s" and t: "tick s = Inr t"
  shows "wellFormed (syncRefs t)"
proof (cases "gameOver s \<or> \<not> isPlaying s")
  case True
  with t have "t = s" by (simp add: tick_def)
  with wf show ?thesis by (intro wellFormed_syncRefs) (simp_all add: wellFormed_def)
next
  case False
  with t have ic: "intervalCallback s = Inr t" by (simp add: tick_def)
  from wf obtain h tl where sn: "snake s = h # tl"
    by (cases "snake s") (auto simp: wellFormed_def)
  let ?nh = "newHead h (direction s)"
  from wf have dir: "direction s \<in> set unitDirections" and syn: "foodRef s = food s"
    and ob: "list_all onBoard (snake s)" and dist: "distinct (snake s)"
    and len: "int (length (snake s)) = score s + 1" and fd: "food s \<notin> set (snake s)"
    by (simp_all add: wellFormed_def synced_def)
  from ob sn have "onBoard h" by simp
  then have nhb: "onBoard ?nh" using dir by (rule newHead_onBoard)
  have nhne: "?nh \<noteq> h" using dir by (rule newHead_neq)
  show ?thesis
  proof (cases "?nh \<in> set (snake s)")
    case True
    then have "t = s\<lparr>gameOver := True\<rparr>"
      using ic intervalCallback_collision[OF sn] by simp
    moreover from True nhne sn have "2 \<le> length (snake s)"
      by (cases tl) auto
    ultimately show ?thesis using dir ob dist len fd sn
      by (intro wellFormed_syncRefs) simp_all
  next
    case nocoll: False
    show ?thesis
    proof (cases "?nh = foodRef s")
      case True
      with ic intervalCallback_food[OF sn nocoll] obtain f rest where
        g: "getRandomFood (?nh # snake s) (random s) = Some (f, rest)" and
        t': "t = s\<lparr>snake := ?nh # snake s, food := f, score := score s + 1, random := rest\<rparr>"
        by (auto split: option.splits)
      from g have "f \<notin> set (?nh # snake s)" using getRandomFood_sound by blast
      then show ?thesis using t' dir ob dist len nocoll nhb False
        by (intro wellFormed_syncRefs) simp_all
    next
      case nofood: False
      then have t': "t = s\<lparr>snake := ?nh # butlast (snake s)\<rparr>"
        using ic intervalCallback_move[OF sn nocoll] by simp
      have sub: "set (butlast (snake s)) \<subseteq> set (snake s)"
        by (auto dest: in_set_butlastD)
      have "list_all onBoard (butlast (snake s))"
        using ob sub by (auto simp: list_all_iff)
      moreover have "distinct (butlast (snake s))" using dist by (rule distinct_butlast)
      moreover have "?nh \<notin> set (butlast (snake s))" using nocoll sub by blast
      moreover have "food s \<notin> set (butlast (snake s))" using fd sub by blast
      moreover have "food s \<noteq> ?nh" using nofood syn by simp
      moreover have "snake s \<noteq> []" using sn by simp
      then have "int (length (?nh # butlast (snake s))) = score s + 1"
        using len by simp
      ultimately show ?thesis using t' dir nhb False
        by (intro wellFormed_syncRefs) simp_all
    qed
  qed
qed

lemma wellFormed_step:
  assumes "wellFormed s" "step e s = Inr s'"
  shows "wellFormed s'"
proof (cases e)
  case (KeyDown k)
  with assms(2) have eq: "s' = syncRefs (handleKey k s)" by (simp add: rendered_def)
  have "direction (handleKey k s) \<in> set unitDirections"
    using assms(1) by (intro handleKey_direction) (simp add: wellFormed_def)
  then have "wellFormed (syncRefs (handleKey k s))"
    using assms(1) handleKey_fields[of k s]
    by (intro wellFormed_syncRefs) (simp_all add: wellFormed_def)
  then show ?thesis using eq by simp
next
  case (TouchStart a b)
  with assms(2) have eq: "s' = syncRefs (handleTouchStart a b s)" by (simp add: rendered_def)
  have "wellFormed (syncRefs (handleTouchStart a b s))"
    using assms(1)
    by (intro wellFormed_syncRefs) (simp_all add: wellFormed_def handleTouchStart_def)
  then show ?thesis using eq by simp
next
  case (TouchEnd a b)
  with assms(2) have eq: "s' = syncRefs (handleTouchEnd a b s)" by (simp add: rendered_def)
  have "direction (handleTouchEnd a b s) \<in> set unitDirections"
    using assms(1) by (intro handleTouchEnd_direction) (simp add: wellFormed_def)
  then have "wellFormed (syncRefs (handleTouchEnd a b s))"
    using assms(1) handleTouchEnd_fields[of a b s]
    by (intro wellFormed_syncRefs) (simp_all add: wellFormed_def)
  then show ?thesis using eq by simp
next
  case Tick
  with assms(2) obtain t where "tick s = Inr t" "s' = syncRefs t"
    by (auto simp: rendered_def split: sum.splits)
  then show ?thesis using wellFormed_tick[OF assms(1)] by simp
next
  case Restart
  show ?thesis
  proof (cases "gameOver s")
    case True
    with Restart assms(2) obtain t where "handleRestart s = Inr t" "s' = syncRefs t"
      by (auto simp: rendered_def split: sum.splits)
    then show ?thesis using wellFormed_handleRestart by simp
  next
    case False
    with Restart assms show ?thesis by simp
  qed
qed

lemma reachable_wellFormed: "reachable s \<Longrightarrow> wellFormed s"
  by (induction rule: reachable.induct) (auto intro: wellFormed_mount wellFormed_step)

lemma reachable_run:
  "reachable s \<Longrightarrow> run es s = Inr s' \<Longrightarrow> reachable s'"
  by (induction es arbitrary: s) (auto split: sum.splits intro: reachable_step)

subsection \<open>The example run\<close>

lemmas ex_defs = exStart_def exRunning_def exGrown_def exReversed_def exOver_def
  exRestarted_def exResumed_def exMoved_def exNeck_def exTail_def exEdge_def gameOf_def

lemma mount_example: "mount [7, 7, 7, 6, 3, 3, 7, 7, 4, 4] = Inr exStart"
  by (simp add: mount_def INITIAL_SNAKE_def INITIAL_DIRECTION_def ex_defs)

lemma step_example1: "step (KeyDown ''ArrowUp'') exStart = Inr exRunning"
  by (simp add: rendered_def handleKey_def syncRefs_def Let_def ex_defs)

lemma step_example2: "step Tick exRunning = Inr exGrown"
  by (simp add: rendered_def tick_def intervalCallback_def newHead_def BOARD_SIZE_def
      signed_modulo_int_def syncRefs_def Let_def ex_defs)

lemma step_example3: "run [KeyDown ''ArrowLeft'', KeyDown ''ArrowDown''] exGrown = Inr exReversed"
  by (simp add: rendered_def handleKey_def syncRefs_def Let_def ex_defs)

lemma step_example4: "step Tick exReversed = Inr exOver"
  by (simp add: rendered_def tick_def intervalCallback_def newHead_def BOARD_SIZE_def
      signed_modulo_int_def syncRefs_def Let_def ex_defs)

lemma step_example5: "step Restart exOver = Inr exRestarted"
  by (simp add: rendered_def handleRestart_def INITIAL_SNAKE_def INITIAL_DIRECTION_def
      syncRefs_def Let_def ex_defs)

lemma step_example6: "step (KeyDown ''x'') exRestarted = Inr exResumed"
  by (simp add: rendered_def handleKey_def syncRefs_def Let_def ex_defs)

lemma step_example7: "step Tick exResumed = Inr exMoved"
  by (simp add: rendered_def tick_def intervalCallback_def newHead_def BOARD_SIZE_def
      signed_modulo_int_def syncRefs_def Let_def ex_defs)

lemma reachable_examples:
  "reachable exStart" "reachable exRunning" "reachable exGrown" "reachable exReversed"
  "reachable exOver" "reachable exRestarted" "reachable exResumed" "reachable exMoved"
proof -
  show 1: "reachable exStart" using mount_example by (rule reachable_mount)
  then show 2: "reachable exRunning" using step_example1 by (rule reachable_step)
  then show 3: "reachable exGrown" using step_example2 by (rule reachable_step)
  then show 4: "reachable exReversed" using step_example3 by (rule reachable_run)
  then show 5: "reachable exOver" using step_example4 by (rule reachable_step)
  then show 6: "reachable exRestarted" using step_example5 by (rule reachable_step)
  then show 7: "reachable exResumed" using step_example6 by (rule reachable_step)
  then show "reachable exMoved" using step_example7 by (rule reachable_step)
qed

lemma status_Running: "status s = Running \<longleftrightarrow> \<not> gameOver s \<and> isPlaying s"
  by (simp add: status_def)

lemma status_GameOver: "status s = GameOver \<longleftrightarrow> gameOver s"
  by (simp add: status_def)

lemma status_NotStarted: "status s = NotStarted \<longleftrightarrow> \<not> gameOver s \<and> \<not> isPlaying s"
  by (simp add: status_def)

lemma status_syncRefs: "status (syncRefs s) = status s"
  by (simp add: status_def syncRefs_def)

lemma draws_append:
  "even (length rej) \<Longrightarrow> draws (rej @ rs) = draws rej @ draws rs"
  by (induction rej rule: draws.induct) simp_all

lemma getRandomFood_drawn:
  assumes "getRandomFood sn rnd = Some (f, rest)"
  shows "f \<in> set (draws rnd)"
proof -
  from getRandomFood_sound[OF assms] obtain rej where
    "rnd = rej @ x f # y f # rest" "even (length rej)" by blast
  then show ?thesis by (simp add: draws_append)
qed




lemma syncRefs_synced: "synced s \<Longrightarrow> syncRefs s = s"
  by (simp add: synced_def syncRefs_def)

lemma synced_syncRefs: "synced (syncRefs s)"
  by (simp add: synced_def syncRefs_def)

lemma step_gameOver:
  assumes "synced s" "gameOver s" "e \<noteq> Restart"
  shows "\<exists>t. step e s = Inr t \<and> synced t \<and> gameOver t \<and> snake t = snake s \<and>
             direction t = direction s \<and> food t = food s \<and> score t = score s"
proof -
  have g: "gameOverRef s" using assms by (simp add: synced_def)
  show ?thesis
  proof (cases e)
    case (KeyDown k)
    then show ?thesis using assms g
      by (simp add: rendered_def handleKey_def syncRefs_synced)
  next
    case (TouchStart a b)
    then show ?thesis using assms
      by (simp add: rendered_def handleTouchStart_def syncRefs_def synced_def)
  next
    case (TouchEnd a b)
    then show ?thesis using assms g
      by (simp add: rendered_def handleTouchEnd_def syncRefs_synced)
  next
    case Tick
    then show ?thesis using assms
      by (simp add: rendered_def tick_def syncRefs_synced)
  next
    case Restart
    with assms show ?thesis by simp
  qed
qed

lemma run_gameOver:
  "synced s \<Longrightarrow> gameOver s \<Longrightarrow> Restart \<notin> set es \<Longrightarrow>
   \<exists>t. run es s = Inr t \<and> synced t \<and> gameOver t \<and> snake t = snake s \<and>
       direction t = direction s \<and> food t = food s \<and> score t = score s"
proof (induction es arbitrary: s)
  case Nil
  then show ?case by simp
next
  case (Cons e es)
  then have "e \<noteq> Restart" by auto
  from step_gameOver[OF Cons.prems(1,2) this] obtain u where
    u: "step e s = Inr u" "synced u" "gameOver u" "snake u = snake s"
    "direction u = direction s" "food u = food s" "score u = score s" by blast
  from Cons.prems(3) have "Restart \<notin> set es" by simp
  from Cons.IH[OF u(2,3) this] u show ?case by auto
qed

lemma handleKey_starts:
  "\<not> gameOverRef s \<Longrightarrow> \<not> isPlayingRef s \<Longrightarrow> isPlaying (handleKey k s)"
  by (simp add: handleKey_def Let_def)

lemma handleTouchEnd_starts:
  "\<not> gameOverRef s \<Longrightarrow> \<not> isPlayingRef s \<Longrightarrow> isPlaying (handleTouchEnd a b s)"
  by (simp add: handleTouchEnd_def Let_def)

lemma handleRestart_result:
  assumes "handleRestart s = Inr u"
  obtains f rest where "getRandomFood INITIAL_SNAKE (random s) = Some (f, rest)"
    "u = s\<lparr>snake := INITIAL_SNAKE, direction := INITIAL_DIRECTION, food := f,
           score := 0, gameOver := False, isPlaying := False, random := rest\<rparr>"
  using assms by (auto simp: handleRestart_def split: option.splits)

subsection \<open>The full board\<close>

lemma allCells_onBoard: "c \<in> set allCells \<longleftrightarrow> onBoard c"
proof -
  obtain a b where c: "c = \<lparr>x = a, y = b\<rparr>" by (cases c)
  show ?thesis unfolding c by (auto simp: allCells_def onBoard_def BOARD_SIZE_def image_iff)
qed

lemma inRange_draws: "inRange rnd \<Longrightarrow> c \<in> set (draws rnd) \<Longrightarrow> onBoard c"
  by (induction rnd rule: draws.induct) (auto simp: inRange_def onBoard_def)

lemma boardFull_iff: "boardFull sn \<longleftrightarrow> (\<forall>c. onBoard c \<longrightarrow> c \<in> set sn)"
  by (auto simp: boardFull_def list_all_iff allCells_onBoard)

lemma boardFull_never_returns:
  assumes "boardFull sn" "inRange rnd"
  shows "getRandomFood sn rnd = None"
  using assms inRange_draws[OF assms(2)]
  by (auto simp: getRandomFood_None boardFull_iff)

lemma tick_eating:
  assumes "status s = Running" "foodRef s = food s" "snake s = h # body"
    and "newHead h (direction s) \<notin> set (snake s)" "newHead h (direction s) = food s"
  shows "tick s =
     (case getRandomFood (newHead h (direction s) # snake s) (random s) of
        None \<Rightarrow> Inl Hang
      | Some (newFood, rest) \<Rightarrow>
          Inr (s\<lparr>snake := newHead h (direction s) # snake s, food := newFood,
                 score := score s + 1, random := rest\<rparr>))"
  using assms by (simp add: tick_def status_Running intervalCallback_food)

lemma mount_fill: "mount (pathDraws 1 224 @ [0, 0, 3, 4]) = Inr exFillStart"
  by code_simp

lemma run_fill: "run fillEvents exFillStart = Inr almostFull"
  by code_simp

lemma reachable_almostFull: "reachable almostFull"
  using reachable_mount[OF mount_fill] run_fill by (rule reachable_run)

lemma almostFull_facts:
  "status almostFull = Running" "foodRef almostFull = food almostFull"
  "snake almostFull = \<lparr>x = 6, y = 8\<rparr> # pathSnake 223"
  "newHead \<lparr>x = 6, y = 8\<rparr> (direction almostFull) \<notin> set (snake almostFull)"
  "newHead \<lparr>x = 6, y = 8\<rparr> (direction almostFull) = food almostFull"
  "inRange (random almostFull)"
  "boardFull (newHead \<lparr>x = 6, y = 8\<rparr> (direction almostFull) # snake almostFull)"
  by code_simp+

lemma almostFull_never_returns:
  assumes "inRange rnd"
  shows "tick (almostFull\<lparr>random := rnd\<rparr>) = Inl Hang"
proof -
  let ?s = "almostFull\<lparr>random := rnd\<rparr>"
  let ?nh = "newHead \<lparr>x = 6, y = 8\<rparr> (direction ?s)"
  have 1: "status ?s = Running"
    using almostFull_facts(1) by (auto simp: status_def split: if_splits)
  have 2: "foodRef ?s = food ?s" using almostFull_facts(2) by simp
  have 3: "snake ?s = \<lparr>x = 6, y = 8\<rparr> # pathSnake 223" using almostFull_facts(3) by simp
  have 4: "?nh \<notin> set (snake ?s)" using almostFull_facts(4) by simp
  have 5: "?nh = food ?s" using almostFull_facts(5) by simp
  have "boardFull (?nh # snake ?s)" using almostFull_facts(7) by simp
  then have "getRandomFood (?nh # snake ?s) (random ?s) = None"
    using assms by (intro boardFull_never_returns) simp_all
  then show ?thesis by (simp add: tick_eating[OF 1 2 3 4 5])
qed

section \<open>The claims\<close>

text \<open>
  C1. The reversal guard reads \<open>moveRef\<close>, which after every render holds the latest
  requested direction, not the direction of the last tick. In the reachable state
  \<open>exGrown\<close> the last tick moved up; ArrowLeft is accepted and becomes the value of
  \<open>moveRef\<close>, ArrowDown is then compared with left and accepted too, and the next tick
  moves down, the exact opposite of up, into the snake's own second cell: game over.
\<close>

theorem C1_reversal_through_two_keys:
  "reachable exRunning \<and> direction exRunning = \<lparr>x = 0, y = - 1\<rparr> \<and>
   step Tick exRunning = Inr exGrown \<and>
   run [KeyDown ''ArrowLeft'', KeyDown ''ArrowDown''] exGrown = Inr exReversed \<and>
   direction exReversed = opposite (direction exRunning) \<and>
   newHead \<lparr>x = 7, y = 6\<rparr> (direction exReversed) = \<lparr>x = 7, y = 7\<rparr> \<and>
   step Tick exReversed = Inr exOver \<and> status exOver = GameOver"
  using reachable_examples(2) step_example2 step_example3 step_example4
  by (simp add: opposite_def status_def newHead_def BOARD_SIZE_def signed_modulo_int_def
      ex_defs)

text \<open>
  C2 (as the code has it). A key that is not a direction key, and a touch whose deltas are
  both within 20, produce no direction intent and leave snake, direction, food, score and
  the game-over flag alone. They are not without effect: when the status is NotStarted
  they set it to Running, because the handlers start the game on the first key press or
  touch of any kind. In the other two modes they change nothing.
\<close>

theorem C2_malformed_input_only_starts_game:
  "(synced s \<and> k \<notin> set directionKeys \<longrightarrow>
      handleKey k s = (if status s = NotStarted then s\<lparr>isPlaying := True\<rparr> else s)) \<and>
   (synced s \<and> \<bar>a - startX s\<bar> \<le> 20 \<and> \<bar>b - startY s\<bar> \<le> 20 \<longrightarrow>
      handleTouchEnd a b s = (if status s = NotStarted then s\<lparr>isPlaying := True\<rparr> else s))"
proof (intro conjI impI)
  assume "synced s \<and> k \<notin> set directionKeys"
  then have r: "gameOverRef s = gameOver s" "isPlayingRef s = isPlaying s"
    and k: "k \<notin> set directionKeys" by (simp_all add: synced_def)
  from k have "handleKey k s =
      (if gameOverRef s then s else if \<not> isPlayingRef s then s\<lparr>isPlaying := True\<rparr> else s)"
    by (simp add: handleKey_def directionKeys_def)
  then show "handleKey k s = (if status s = NotStarted then s\<lparr>isPlaying := True\<rparr> else s)"
    using r by (simp add: status_def)
next
  assume "synced s \<and> \<bar>a - startX s\<bar> \<le> 20 \<and> \<bar>b - startY s\<bar> \<le> 20"
  then have r: "gameOverRef s = gameOver s" "isPlayingRef s = isPlaying s"
    and d: "\<bar>a - startX s\<bar> \<le> 20" "\<bar>b - startY s\<bar> \<le> 20" by (simp_all add: synced_def)
  from d have "\<not> a - startX s > 20" "\<not> a - startX s < - 20"
    "\<not> b - startY s > 20" "\<not> b - startY s < - 20" by linarith+
  then have "handleTouchEnd a b s =
      (if gameOverRef s then s else if \<not> isPlayingRef s then s\<lparr>isPlaying := True\<rparr> else s)"
    by (simp add: handleTouchEnd_def Let_def)
  then show "handleTouchEnd a b s = (if status s = NotStarted then s\<lparr>isPlaying := True\<rparr> else s)"
    using r by (simp add: status_def)
qed

theorem C2_witness:
  "handleKey ''x'' exStart = exStart\<lparr>isPlaying := True\<rparr> \<and>
   handleKey ''x'' exGrown = exGrown \<and>
   handleTouchEnd 20 (- 20) exStart = exStart\<lparr>isPlaying := True\<rparr> \<and>
   handleTouchEnd 20 (- 20) exGrown = exGrown"
proof -
  have h: "synced exStart \<and> ''x'' \<notin> set directionKeys"
    "synced exGrown \<and> ''x'' \<notin> set directionKeys"
    "synced exStart \<and> \<bar>20 - startX exStart\<bar> \<le> 20 \<and> \<bar>- 20 - startY exStart\<bar> \<le> 20"
    "synced exGrown \<and> \<bar>20 - startX exGrown\<bar> \<le> 20 \<and> \<bar>- 20 - startY exGrown\<bar> \<le> 20"
    by (simp_all add: synced_def directionKeys_def ex_defs)
  have s: "status exStart = NotStarted" "status exGrown = Running"
    by (simp_all add: status_def ex_defs)
  show ?thesis
    using C2_malformed_input_only_starts_game[of exStart "''x''" 20 "- 20"]
      C2_malformed_input_only_starts_game[of exGrown "''x''" 20 "- 20"] h s
    by simp
qed

theorem C2_counterexample:
  "''x'' \<notin> set directionKeys \<and> status exRestarted = NotStarted \<and>
   step (KeyDown ''x'') exRestarted = Inr exResumed \<and> status exResumed = Running \<and>
   \<bar>0 - startX exRestarted\<bar> \<le> 20 \<and> \<bar>0 - startY exRestarted\<bar> \<le> 20 \<and>
   step (TouchEnd 0 0) exRestarted = Inr exResumed"
  by (simp add: directionKeys_def status_def rendered_def handleKey_def handleTouchEnd_def
      syncRefs_def ex_defs)

text \<open>
  C3. A tick of the running game whose new head is a cell of the current snake (the tail
  included: nothing has been dropped yet) ends the game: the status becomes GameOver and
  snake, food and score are what they were.
\<close>

theorem C3_collision_ends_game:
  assumes "status s = Running" "snake s = h # body" "newHead h (direction s) \<in> set (snake s)"
  shows "\<exists>t. step Tick s = Inr t \<and> status t = GameOver \<and> snake t = snake s \<and>
             food t = food s \<and> score t = score s \<and> direction t = direction s"
proof -
  have "tick s = Inr (s\<lparr>gameOver := True\<rparr>)"
    using assms by (simp add: tick_def status_Running intervalCallback_collision)
  then have "step Tick s = Inr (syncRefs (s\<lparr>gameOver := True\<rparr>))"
    by (simp add: rendered_def)
  then show ?thesis by (simp add: syncRefs_def status_def)
qed

theorem C3_witness:
  "step Tick exNeck = Inr (exNeck\<lparr>gameOver := True, gameOverRef := True\<rparr>) \<and>
   step Tick exTail = Inr (exTail\<lparr>gameOver := True, gameOverRef := True\<rparr>) \<and>
   newHead \<lparr>x = 7, y = 7\<rparr> (direction exTail) = last (snake exTail) \<and>
   (\<exists>t. step Tick exNeck = Inr t \<and> status t = GameOver \<and> snake t = snake exNeck \<and>
        food t = food exNeck \<and> score t = score exNeck \<and> direction t = direction exNeck)"
proof -
  have e: "step Tick exNeck = Inr (exNeck\<lparr>gameOver := True, gameOverRef := True\<rparr>)"
      "step Tick exTail = Inr (exTail\<lparr>gameOver := True, gameOverRef := True\<rparr>)"
      "newHead \<lparr>x = 7, y = 7\<rparr> (direction exTail) = last (snake exTail)"
    by (simp_all add: rendered_def tick_def intervalCallback_def newHead_def BOARD_SIZE_def
      signed_modulo_int_def syncRefs_def Let_def ex_defs)
  have h: "status exNeck = Running"
    "snake exNeck = \<lparr>x = 7, y = 6\<rparr> # [\<lparr>x = 7, y = 7\<rparr>, \<lparr>x = 7, y = 8\<rparr>]"
    "newHead \<lparr>x = 7, y = 6\<rparr> (direction exNeck) \<in> set (snake exNeck)"
    by (simp_all add: status_def newHead_def BOARD_SIZE_def signed_modulo_int_def ex_defs)
  show ?thesis using e C3_collision_ends_game[OF h] by simp
qed

text \<open>
  C4 (as the code has it). A tick of the running game whose new head is the food cell and
  no cell of the snake calls \<open>getRandomFood\<close> on the new snake, and returns exactly when
  one of the cells drawn misses the new snake. It then prepends the new head to the snake
  (one cell longer), adds 1 to the score, and places the new food on the cell drawn, which
  is not a cell of the new snake (and a board cell when the random values are in range).
  While the new snake leaves a board cell free, drawing that cell makes the tick return.
  When the new snake covers the whole board, no random values in range make it return:
  the tick produces no state. Snake [(7,7)] moving up with food at (7,6) gives snake
  [(7,6),(7,7)] and score 1.
\<close>

theorem C4_eating_grows_snake:
  assumes "status s = Running" "foodRef s = food s" "snake s = h # body"
    and "newHead h (direction s) \<notin> set (snake s)" "newHead h (direction s) = food s"
  shows
    "(tick s = Inl Hang \<longleftrightarrow> set (draws (random s)) \<subseteq> set (newHead h (direction s) # snake s)) \<and>
     ((\<exists>c \<in> set (draws (random s)). c \<notin> set (newHead h (direction s) # snake s)) \<longrightarrow>
        (\<exists>t. tick s = Inr t \<and> snake t = newHead h (direction s) # snake s \<and>
             length (snake t) = length (snake s) + 1 \<and> score t = score s + 1 \<and>
             food t \<in> set (draws (random s)) \<and> food t \<notin> set (snake t) \<and>
             (inRange (random s) \<longrightarrow> onBoard (food t)) \<and> status t = Running)) \<and>
     (\<not> boardFull (newHead h (direction s) # snake s) \<longrightarrow>
        (\<exists>c. onBoard c \<and> c \<notin> set (newHead h (direction s) # snake s) \<and>
             (\<exists>t. tick (s\<lparr>random := x c # y c # rnd\<rparr>) = Inr t \<and> food t = c \<and>
                  snake t = newHead h (direction s) # snake s \<and> score t = score s + 1))) \<and>
     (boardFull (newHead h (direction s) # snake s) \<and> inRange (random s) \<longrightarrow>
        tick s = Inl Hang)"
proof -
  let ?nh = "newHead h (direction s)"
  note ic = tick_eating[OF assms]
  have run: "\<not> gameOver s" "isPlaying s" using assms(1) by (simp_all add: status_Running)
  have hang: "tick s = Inl Hang \<longleftrightarrow> set (draws (random s)) \<subseteq> set (?nh # snake s)"
  proof (cases "getRandomFood (?nh # snake s) (random s)")
    case None
    then have "set (draws (random s)) \<subseteq> set (?nh # snake s)"
      by (simp only: getRandomFood_None)
    with None ic show ?thesis by simp
  next
    case (Some p)
    have "\<not> set (draws (random s)) \<subseteq> set (?nh # snake s)"
    proof
      assume "set (draws (random s)) \<subseteq> set (?nh # snake s)"
      then have "getRandomFood (?nh # snake s) (random s) = None"
        by (simp only: getRandomFood_None)
      with Some show False by simp
    qed
    moreover have "tick s \<noteq> Inl Hang" using ic Some by (cases p) simp
    ultimately show ?thesis by blast
  qed
  have result: "\<exists>t. tick s = Inr t \<and> snake t = ?nh # snake s \<and>
             length (snake t) = length (snake s) + 1 \<and> score t = score s + 1 \<and>
             food t \<in> set (draws (random s)) \<and> food t \<notin> set (snake t) \<and>
             (inRange (random s) \<longrightarrow> onBoard (food t)) \<and> status t = Running"
    if free: "\<exists>c \<in> set (draws (random s)). c \<notin> set (?nh # snake s)"
  proof -
    from getRandomFood_returns[OF free] obtain f rest where
      g: "getRandomFood (?nh # snake s) (random s) = Some (f, rest)" by blast
    have "f \<notin> set (?nh # snake s)" using getRandomFood_sound[OF g] by blast
    moreover have "f \<in> set (draws (random s))" using g by (rule getRandomFood_drawn)
    moreover have "inRange (random s) \<longrightarrow> onBoard f"
      using getRandomFood_inRange[OF g] by blast
    ultimately show ?thesis using ic g run by (simp add: status_def)
  qed
  have notfull: "\<exists>c. onBoard c \<and> c \<notin> set (?nh # snake s) \<and>
             (\<exists>t. tick (s\<lparr>random := x c # y c # rnd\<rparr>) = Inr t \<and> food t = c \<and>
                  snake t = ?nh # snake s \<and> score t = score s + 1)"
    if nf: "\<not> boardFull (?nh # snake s)"
  proof -
    from nf obtain c where c: "onBoard c" "c \<notin> set (?nh # snake s)"
      by (auto simp: boardFull_iff)
    obtain a b where ab: "c = \<lparr>x = a, y = b\<rparr>" by (cases c)
    let ?s' = "s\<lparr>random := x c # y c # rnd\<rparr>"
    have g: "getRandomFood (?nh # snake s) (x c # y c # rnd) = Some (c, rnd)"
      using c(2) unfolding ab by (simp add: getRandomFood_step del: getRandomFood.simps)
    have "tick ?s' =
       (case getRandomFood (newHead h (direction ?s') # snake ?s') (random ?s') of
          None \<Rightarrow> Inl Hang
        | Some (newFood, rest) \<Rightarrow>
            Inr (?s'\<lparr>snake := newHead h (direction ?s') # snake ?s', food := newFood,
                   score := score ?s' + 1, random := rest\<rparr>))"
    proof (rule tick_eating)
      show "status ?s' = Running" using run by (simp add: status_def)
      show "foodRef ?s' = food ?s'" using assms(2) by simp
      show "snake ?s' = h # body" using assms(3) by simp
      show "newHead h (direction ?s') \<notin> set (snake ?s')" using assms(4) by simp
      show "newHead h (direction ?s') = food ?s'" using assms(5) by simp
    qed
    with g have "tick ?s' = Inr (?s'\<lparr>snake := ?nh # snake s, food := c,
                   score := score s + 1, random := rnd\<rparr>)" by simp
    with c show ?thesis by auto
  qed
  have full: "tick s = Inl Hang" if "boardFull (?nh # snake s) \<and> inRange (random s)"
    using that ic boardFull_never_returns[of "?nh # snake s" "random s"] by simp
  from hang result notfull full show ?thesis by blast
qed

theorem C4_witness:
  "snake exRunning = [\<lparr>x = 7, y = 7\<rparr>] \<and> direction exRunning = \<lparr>x = 0, y = - 1\<rparr> \<and>
   food exRunning = \<lparr>x = 7, y = 6\<rparr> \<and> score exRunning = 0 \<and>
   step Tick exRunning = Inr exGrown \<and>
   snake exGrown = [\<lparr>x = 7, y = 6\<rparr>, \<lparr>x = 7, y = 7\<rparr>] \<and> score exGrown = 1 \<and>
   food exGrown \<notin> set (snake exGrown) \<and>
   (\<exists>t. tick exRunning = Inr t \<and> snake t = [\<lparr>x = 7, y = 6\<rparr>, \<lparr>x = 7, y = 7\<rparr>] \<and>
        score t = 1 \<and> food t \<notin> set (snake t) \<and> onBoard (food t)) \<and>
   boardFull (\<lparr>x = 6, y = 7\<rparr> # snake almostFull) \<and> tick almostFull = Inl Hang"
proof -
  have h: "status exRunning = Running" "foodRef exRunning = food exRunning"
    "snake exRunning = \<lparr>x = 7, y = 7\<rparr> # []"
    "newHead \<lparr>x = 7, y = 7\<rparr> (direction exRunning) \<notin> set (snake exRunning)"
    "newHead \<lparr>x = 7, y = 7\<rparr> (direction exRunning) = food exRunning"
    by (simp_all add: status_def newHead_def BOARD_SIZE_def signed_modulo_int_def ex_defs)
  have nh: "newHead \<lparr>x = 7, y = 7\<rparr> (direction exRunning) = \<lparr>x = 7, y = 6\<rparr>"
    by (simp add: newHead_def BOARD_SIZE_def signed_modulo_int_def ex_defs)
  have d: "\<exists>c \<in> set (draws (random exRunning)).
      c \<notin> set (newHead \<lparr>x = 7, y = 7\<rparr> (direction exRunning) # snake exRunning)"
    "inRange (random exRunning)"
    by (simp_all add: newHead_def BOARD_SIZE_def signed_modulo_int_def inRange_def ex_defs)
  have e: "snake exRunning = [\<lparr>x = 7, y = 7\<rparr>] \<and> direction exRunning = \<lparr>x = 0, y = - 1\<rparr> \<and>
     food exRunning = \<lparr>x = 7, y = 6\<rparr> \<and> score exRunning = 0 \<and>
     snake exGrown = [\<lparr>x = 7, y = 6\<rparr>, \<lparr>x = 7, y = 7\<rparr>] \<and> score exGrown = 1 \<and>
     food exGrown \<notin> set (snake exGrown)"
    by (simp add: ex_defs)
  from C4_eating_grows_snake[OF h] d nh
  have r: "\<exists>t. tick exRunning = Inr t \<and> snake t = [\<lparr>x = 7, y = 6\<rparr>, \<lparr>x = 7, y = 7\<rparr>] \<and>
        score t = 1 \<and> food t \<notin> set (snake t) \<and> onBoard (food t)"
    by (auto simp: ex_defs)
  have fh: "newHead \<lparr>x = 6, y = 8\<rparr> (direction almostFull) = \<lparr>x = 6, y = 7\<rparr>"
    using almostFull_facts(5) by (simp add: almostFull_def gameOf_def)
  from C4_eating_grows_snake[OF almostFull_facts(1-5)] almostFull_facts(6,7)
  have f: "boardFull (\<lparr>x = 6, y = 7\<rparr> # snake almostFull) \<and> tick almostFull = Inl Hang"
    unfolding fh by blast
  from e r f step_example2 show ?thesis by blast
qed

theorem C4_counterexample:
  "reachable almostFull \<and> status almostFull = Running \<and>
   snake almostFull = \<lparr>x = 6, y = 8\<rparr> # pathSnake 223 \<and>
   newHead \<lparr>x = 6, y = 8\<rparr> (direction almostFull) = food almostFull \<and>
   newHead \<lparr>x = 6, y = 8\<rparr> (direction almostFull) \<notin> set (snake almostFull) \<and>
   length (snake almostFull) = 224 \<and>
   boardFull (food almostFull # snake almostFull) \<and>
   inRange (random almostFull) \<and> tick almostFull = Inl Hang"
proof -
  have "almostFull\<lparr>random := random almostFull\<rparr> = almostFull" by simp
  then have t: "tick almostFull = Inl Hang"
    using almostFull_never_returns[OF almostFull_facts(6)] by simp
  have l: "length (snake almostFull) = 224" by (simp add: almostFull_def gameOf_def pathSnake_def)
  have b: "boardFull (food almostFull # snake almostFull)"
    using almostFull_facts(7) by (simp only: almostFull_facts(5))
  from reachable_almostFull almostFull_facts(1,3,4,5,6) t l b show ?thesis by blast
qed



text \<open>
  C6. From a head on the board and a unit direction, the head a tick computes is on the
  board again: each coordinate is the old one plus the step, modulo 15, so a step off one
  edge arrives at the opposite edge and no wall ends the game. Head (7,0) moving up gives
  (7,14). Hence every cell of the snake of a reachable state is on the board.
\<close>

theorem C6_head_wraps_on_board:
  "(onBoard h \<and> d \<in> set unitDirections \<longrightarrow>
      onBoard (newHead h d) \<and>
      newHead h d = \<lparr>x = (x h + x d) mod 15, y = (y h + y d) mod 15\<rparr>) \<and>
   newHead \<lparr>x = 7, y = 0\<rparr> \<lparr>x = 0, y = - 1\<rparr> = \<lparr>x = 7, y = 14\<rparr> \<and>
   (reachable s \<longrightarrow> list_all onBoard (snake s))"
proof (intro conjI impI)
  assume a: "onBoard h \<and> d \<in> set unitDirections"
  then show "onBoard (newHead h d)" by (simp add: newHead_onBoard)
  from a show "newHead h d = \<lparr>x = (x h + x d) mod 15, y = (y h + y d) mod 15\<rparr>"
    using newHead_mod[of h d] by (simp add: BOARD_SIZE_def)
next
  show "newHead \<lparr>x = 7, y = 0\<rparr> \<lparr>x = 0, y = - 1\<rparr> = \<lparr>x = 7, y = 14\<rparr>"
    by (simp add: newHead_def BOARD_SIZE_def signed_modulo_int_def)
next
  assume "reachable s"
  then show "list_all onBoard (snake s)"
    using reachable_wellFormed by (simp add: wellFormed_def)
qed

theorem C6_witness:
  "onBoard (newHead \<lparr>x = 14, y = 3\<rparr> \<lparr>x = 1, y = 0\<rparr>) \<and>
   newHead \<lparr>x = 14, y = 3\<rparr> \<lparr>x = 1, y = 0\<rparr> = \<lparr>x = 0, y = 3\<rparr> \<and>
   reachable exGrown \<and> list_all onBoard (snake exGrown)"
proof -
  have h: "onBoard \<lparr>x = 14, y = 3\<rparr> \<and> \<lparr>x = 1, y = 0\<rparr> \<in> set unitDirections"
    by (simp add: onBoard_def BOARD_SIZE_def unitDirections_def)
  have r: "reachable exGrown" by (rule reachable_examples)
  show ?thesis
    using C6_head_wraps_on_board[of "\<lparr>x = 14, y = 3\<rparr>" "\<lparr>x = 1, y = 0\<rparr>" exGrown] h r
    by auto
qed

text \<open>
  C7. The cell \<open>getRandomFood\<close> returns is never a cell of the snake it was given: it is
  the first cell drawn that misses the snake, every cell drawn before it having been
  rejected for lying on the snake. The loop fails to return exactly when every cell drawn
  lies on the snake, so one free board cell among the draws is enough. With random values
  in range the food is a board cell. In every reachable state (after mounting, restarting
  or eating) the food is not a cell of the snake.
\<close>

theorem C7_food_off_snake:
  "(getRandomFood sn rnd = Some (f, rest) \<longrightarrow>
      f \<notin> set sn \<and>
      (\<exists>rej. rnd = rej @ x f # y f # rest \<and> even (length rej) \<and> set (draws rej) \<subseteq> set sn) \<and>
      (inRange rnd \<longrightarrow> onBoard f)) \<and>
   (getRandomFood sn rnd = None \<longleftrightarrow> set (draws rnd) \<subseteq> set sn) \<and>
   (onBoard c \<and> c \<notin> set sn \<longrightarrow>
      inRange [x c, y c] \<and> getRandomFood sn [x c, y c] = Some (c, [])) \<and>
   (reachable s \<longrightarrow> food s \<notin> set (snake s))"
proof (intro conjI impI)
  assume g: "getRandomFood sn rnd = Some (f, rest)"
  from getRandomFood_sound[OF g] show "f \<notin> set sn" by blast
  from getRandomFood_sound[OF g]
  show "\<exists>rej. rnd = rej @ x f # y f # rest \<and> even (length rej) \<and> set (draws rej) \<subseteq> set sn"
    by blast
  assume "inRange rnd"
  with getRandomFood_inRange[OF g] show "onBoard f" by blast
next
  show "getRandomFood sn rnd = None \<longleftrightarrow> set (draws rnd) \<subseteq> set sn"
    by (rule getRandomFood_None)
next
  assume c: "onBoard c \<and> c \<notin> set sn"
  then show "inRange [x c, y c]" by (simp add: inRange_def onBoard_def)
  obtain a b where "c = \<lparr>x = a, y = b\<rparr>" by (cases c)
  with c show "getRandomFood sn [x c, y c] = Some (c, [])"
    by (simp add: getRandomFood_step del: getRandomFood.simps)
next
  assume "reachable s"
  then show "food s \<notin> set (snake s)"
    using reachable_wellFormed by (simp add: wellFormed_def)
qed

theorem C7_witness:
  "getRandomFood [\<lparr>x = 7, y = 7\<rparr>] [7, 7, 7, 6, 3, 3] = Some (\<lparr>x = 7, y = 6\<rparr>, [3, 3]) \<and>
   \<lparr>x = 7, y = 6\<rparr> \<notin> set [\<lparr>x = 7, y = 7\<rparr>] \<and> onBoard \<lparr>x = 7, y = 6\<rparr> \<and>
   getRandomFood [\<lparr>x = 7, y = 7\<rparr>] [7, 7, 7] = None \<and>
   getRandomFood [\<lparr>x = 7, y = 7\<rparr>] [0, 14] = Some (\<lparr>x = 0, y = 14\<rparr>, []) \<and>
   reachable exGrown \<and> food exGrown \<notin> set (snake exGrown)"
proof -
  have g: "getRandomFood [\<lparr>x = 7, y = 7\<rparr>] [7, 7, 7, 6, 3, 3] = Some (\<lparr>x = 7, y = 6\<rparr>, [3, 3])"
    "inRange [7, 7, 7, 6, 3, 3]" "set (draws [7, 7, 7]) \<subseteq> set [\<lparr>x = 7, y = 7\<rparr>]"
    "onBoard \<lparr>x = 0, y = 14\<rparr> \<and> \<lparr>x = 0, y = 14\<rparr> \<notin> set [\<lparr>x = 7, y = 7\<rparr>]"
    by (simp_all add: inRange_def onBoard_def BOARD_SIZE_def)
  show ?thesis
    using C7_food_off_snake[of "[\<lparr>x = 7, y = 7\<rparr>]" "[7, 7, 7, 6, 3, 3]" "\<lparr>x = 7, y = 6\<rparr>" "[3, 3]"
        "\<lparr>x = 0, y = 14\<rparr>" exGrown]
      C7_food_off_snake[of "[\<lparr>x = 7, y = 7\<rparr>]" "[7, 7, 7]" "\<lparr>x = 7, y = 6\<rparr>" "[3, 3]"
        "\<lparr>x = 0, y = 14\<rparr>" exGrown]
      g reachable_examples(3)
    by simp
qed

text \<open>
  C8 (as the code has it). The restart action puts the game back into the configuration
  of a fresh mount: snake [(7,7)], direction (0,-1), score 0, status NotStarted, and a food
  cell other than (7,7) (a board cell when the random values are in range). The clock is
  stopped: a period that elapses changes nothing. It is started again by the next key
  press or touch end of any kind, whether or not that event carries a direction intent.
  Restart returns as soon as one of the cells drawn is not (7,7).
\<close>

theorem C8_restart_resets:
  "(gameOver s \<and> step Restart s = Inr t \<longrightarrow>
      snake t = [\<lparr>x = 7, y = 7\<rparr>] \<and> direction t = \<lparr>x = 0, y = - 1\<rparr> \<and> score t = 0 \<and>
      status t = NotStarted \<and> food t \<noteq> \<lparr>x = 7, y = 7\<rparr> \<and>
      (inRange (random s) \<longrightarrow> onBoard (food t)) \<and>
      mount (x (food t) # y (food t) # random t) = Inr (t\<lparr>startX := 0, startY := 0\<rparr>) \<and>
      tick t = Inr t \<and>
      status (handleKey k t) = Running \<and> status (handleTouchEnd a b t) = Running) \<and>
   (gameOver s \<and> (\<exists>c \<in> set (draws (random s)). c \<noteq> \<lparr>x = 7, y = 7\<rparr>) \<longrightarrow>
      (\<exists>t. step Restart s = Inr t))"
proof (intro conjI impI)
  assume "gameOver s \<and> (\<exists>c \<in> set (draws (random s)). c \<noteq> \<lparr>x = 7, y = 7\<rparr>)"
  then have go: "gameOver s" and "\<exists>c \<in> set (draws (random s)). c \<notin> set INITIAL_SNAKE"
    by (simp_all add: INITIAL_SNAKE_def)
  from getRandomFood_returns[OF this(2)] obtain f rest where
    "getRandomFood INITIAL_SNAKE (random s) = Some (f, rest)" by blast
  with go show "\<exists>t. step Restart s = Inr t"
    by (simp add: handleRestart_def rendered_def)
next
  assume a: "gameOver s \<and> step Restart s = Inr t"
  then obtain u where u: "handleRestart s = Inr u" and t: "t = syncRefs u"
    by (auto simp: rendered_def split: sum.splits)
  from u obtain f rest where g: "getRandomFood INITIAL_SNAKE (random s) = Some (f, rest)"
    and u': "u = s\<lparr>snake := INITIAL_SNAKE, direction := INITIAL_DIRECTION, food := f,
           score := 0, gameOver := False, isPlaying := False, random := rest\<rparr>"
    by (rule handleRestart_result)
  have fn: "f \<notin> set INITIAL_SNAKE" using getRandomFood_sound[OF g] by blast
  have refs: "\<not> gameOverRef t" "\<not> isPlayingRef t" "\<not> gameOver t" "\<not> isPlaying t"
    using t u' by (simp_all add: syncRefs_def)
  show "snake t = [\<lparr>x = 7, y = 7\<rparr>]" using t u' by (simp add: syncRefs_def INITIAL_SNAKE_def)
  show "direction t = \<lparr>x = 0, y = - 1\<rparr>"
    using t u' by (simp add: syncRefs_def INITIAL_DIRECTION_def)
  show "score t = 0" using t u' by (simp add: syncRefs_def)
  show "status t = NotStarted" using refs by (simp add: status_def)
  show "food t \<noteq> \<lparr>x = 7, y = 7\<rparr>" using t u' fn by (auto simp: syncRefs_def INITIAL_SNAKE_def)
  show "tick t = Inr t" using refs by (simp add: tick_def)
  show "status (handleKey k t) = Running"
    using handleKey_starts[OF refs(1,2), of k] handleKey_fields[of k t] refs(3)
    by (simp add: status_def)
  show "status (handleTouchEnd a b t) = Running"
    using handleTouchEnd_starts[OF refs(1,2), of a b] handleTouchEnd_fields[of a b t] refs(3)
    by (simp add: status_def)
  have "getRandomFood INITIAL_SNAKE (x f # y f # rest) = Some (f, rest)"
    using fn by (cases f) (simp add: getRandomFood_step del: getRandomFood.simps)
  then show "mount (x (food t) # y (food t) # random t) = Inr (t\<lparr>startX := 0, startY := 0\<rparr>)"
    using t u' by (simp add: mount_def syncRefs_def)
  show "onBoard (food t)" if "inRange (random s)"
    using getRandomFood_inRange[OF g that] t u' by (simp add: syncRefs_def)
qed

theorem C8_witness:
  "gameOver exOver \<and> step Restart exOver = Inr exRestarted \<and>
   snake exRestarted = [\<lparr>x = 7, y = 7\<rparr>] \<and> direction exRestarted = \<lparr>x = 0, y = - 1\<rparr> \<and>
   score exRestarted = 0 \<and> status exRestarted = NotStarted \<and>
   food exRestarted = \<lparr>x = 4, y = 4\<rparr> \<and> onBoard (food exRestarted) \<and>
   mount [4, 4] = Inr exRestarted \<and> tick exRestarted = Inr exRestarted \<and>
   status (handleKey ''x'' exRestarted) = Running"
proof -
  have h: "gameOver exOver \<and> step Restart exOver = Inr exRestarted"
    using step_example5 by (simp add: ex_defs)
  have d: "gameOver exOver \<and> (\<exists>c \<in> set (draws (random exOver)). c \<noteq> \<lparr>x = 7, y = 7\<rparr>)"
    "inRange (random exOver)"
    by (simp_all add: inRange_def BOARD_SIZE_def ex_defs)
  have e: "food exRestarted = \<lparr>x = 4, y = 4\<rparr>" "random exRestarted = []"
    "exRestarted\<lparr>startX := 0, startY := 0\<rparr> = exRestarted"
    by (simp_all add: ex_defs)
  show ?thesis
    using C8_restart_resets[of exOver exRestarted "''x''" 0 0] h d e
    by simp
qed

theorem C8_counterexample:
  "gameOver exOver \<and> step Restart exOver = Inr exRestarted \<and>
   ''x'' \<notin> set directionKeys \<and> step (KeyDown ''x'') exRestarted = Inr exResumed \<and>
   direction exResumed = direction exRestarted \<and> status exResumed = Running \<and>
   step Tick exResumed = Inr exMoved \<and> snake exMoved \<noteq> snake exResumed"
  using step_example5 step_example6 step_example7
  by (simp add: directionKeys_def status_def ex_defs)

text \<open>
  C9. From a state with status GameOver, whatever ticks, key presses and touches follow,
  snake, direction, food, score and status stay as they are; only the restart action
  changes them. A period that elapses while the status is NotStarted or GameOver runs no
  step of the state machine.
\<close>

theorem C9_game_over_is_terminal:
  "(synced s \<and> status s = GameOver \<and> Restart \<notin> set es \<longrightarrow>
      (\<exists>t. run es s = Inr t \<and> snake t = snake s \<and> direction t = direction s \<and>
           food t = food s \<and> score t = score s \<and> status t = GameOver)) \<and>
   (status s \<noteq> Running \<longrightarrow> tick s = Inr s) \<and>
   (reachable s \<longrightarrow> synced s)"
proof (intro conjI impI)
  assume "synced s \<and> status s = GameOver \<and> Restart \<notin> set es"
  then have "synced s" "gameOver s" "Restart \<notin> set es" by (simp_all add: status_GameOver)
  from run_gameOver[OF this]
  show "\<exists>t. run es s = Inr t \<and> snake t = snake s \<and> direction t = direction s \<and>
           food t = food s \<and> score t = score s \<and> status t = GameOver"
    by (auto simp: status_GameOver)
next
  assume "status s \<noteq> Running"
  then show "tick s = Inr s" by (simp add: tick_def status_Running)
next
  assume "reachable s"
  then show "synced s" using reachable_wellFormed by (simp add: wellFormed_def)
qed

theorem C9_witness:
  "run [Tick, KeyDown ''ArrowLeft'', TouchStart 0 0, TouchEnd 100 0, Tick] exOver =
     Inr exOver \<and>
   status exOver = GameOver \<and> reachable exOver \<and> synced exOver \<and>
   status exStart = NotStarted \<and> tick exStart = Inr exStart \<and> tick exOver = Inr exOver"
proof -
  have h: "synced exOver \<and> status exOver = GameOver \<and>
    Restart \<notin> set [Tick, KeyDown ''ArrowLeft'', TouchStart 0 0, TouchEnd 100 0, Tick]"
    by (simp add: synced_def status_def ex_defs)
  have n: "status exStart \<noteq> Running" "status exOver \<noteq> Running" "status exStart = NotStarted"
    by (simp_all add: status_def ex_defs)
  have r: "run [Tick, KeyDown ''ArrowLeft'', TouchStart 0 0, TouchEnd 100 0, Tick] exOver =
     Inr exOver"
    by (simp add: rendered_def tick_def handleKey_def handleTouchStart_def handleTouchEnd_def
        syncRefs_def ex_defs)
  show ?thesis
    using C9_game_over_is_terminal[of exOver
        "[Tick, KeyDown ''ArrowLeft'', TouchStart 0 0, TouchEnd 100 0, Tick]"]
      C9_game_over_is_terminal[of exStart "[]"]
      h n r reachable_examples(5)
    by simp
qed

text \<open>
  C10. A unit step modulo 15 never maps a cell to itself, so a tick from a snake of one
  cell never takes the self-collision branch. In every reachable state a snake of length 1
  is not in GameOver, and GameOver implies a score of at least 1.
\<close>

theorem C10_no_collision_at_length_one:
  "(d \<in> set unitDirections \<longrightarrow> newHead c d \<noteq> c) \<and>
   (snake s = [c] \<and> direction s \<in> set unitDirections \<and> \<not> gameOver s \<and> tick s = Inr t
      \<longrightarrow> \<not> gameOver t) \<and>
   (reachable s \<and> length (snake s) = 1 \<longrightarrow> \<not> gameOver s) \<and>
   (reachable s \<and> gameOver s \<longrightarrow> 1 \<le> score s)"
proof (intro conjI impI)
  assume "d \<in> set unitDirections"
  then show "newHead c d \<noteq> c" by (rule newHead_neq)
next
  assume a: "snake s = [c] \<and> direction s \<in> set unitDirections \<and> \<not> gameOver s \<and> tick s = Inr t"
  then have sn: "snake s = [c]" and dr: "direction s \<in> set unitDirections"
    and ng: "\<not> gameOver s" and tk: "tick s = Inr t"
    by simp_all
  have ne: "newHead c (direction s) \<notin> set (snake s)"
    using newHead_neq[OF dr, of c] sn by simp
  show "\<not> gameOver t"
  proof (cases "isPlaying s")
    case False
    with ng tk show ?thesis by (auto simp: tick_def)
  next
    case True
    with ng tk have "intervalCallback s = Inr t" by (simp add: tick_def)
    with ne ng show ?thesis
      by (auto simp: intervalCallback_eq[OF sn] split: if_splits option.splits)
  qed
next
  assume "reachable s \<and> length (snake s) = 1"
  then show "\<not> gameOver s"
    using reachable_wellFormed[of s] by (auto simp: wellFormed_def)
next
  assume "reachable s \<and> gameOver s"
  then show "1 \<le> score s"
    using reachable_wellFormed[of s] by (auto simp: wellFormed_def)
qed

theorem C10_witness:
  "newHead \<lparr>x = 7, y = 7\<rparr> \<lparr>x = 0, y = - 1\<rparr> \<noteq> \<lparr>x = 7, y = 7\<rparr> \<and>
   tick exRunning = Inr (exGrown\<lparr>foodRef := \<lparr>x = 7, y = 6\<rparr>\<rparr>) \<and>
   \<not> gameOver (exGrown\<lparr>foodRef := \<lparr>x = 7, y = 6\<rparr>\<rparr>) \<and>
   reachable exRunning \<and> length (snake exRunning) = 1 \<and> \<not> gameOver exRunning \<and>
   reachable exOver \<and> gameOver exOver \<and> 1 \<le> score exOver"
proof -
  have u: "\<lparr>x = 0, y = - 1\<rparr> \<in> set unitDirections" by (simp add: unitDirections_def)
  have t: "tick exRunning = Inr (exGrown\<lparr>foodRef := \<lparr>x = 7, y = 6\<rparr>\<rparr>)"
    by (simp add: tick_def intervalCallback_def newHead_def BOARD_SIZE_def
        signed_modulo_int_def Let_def ex_defs)
  have s1: "snake exRunning = [\<lparr>x = 7, y = 7\<rparr>] \<and> direction exRunning \<in> set unitDirections \<and>
    \<not> gameOver exRunning" by (simp add: ex_defs unitDirections_def)
  have l: "length (snake exRunning) = 1" "gameOver exOver" by (simp_all add: ex_defs)
  show ?thesis
    using C10_no_collision_at_length_one[of "\<lparr>x = 0, y = - 1\<rparr>" "\<lparr>x = 7, y = 7\<rparr>" exRunning
        "exGrown\<lparr>foodRef := \<lparr>x = 7, y = 6\<rparr>\<rparr>"]
      C10_no_collision_at_length_one[of "\<lparr>x = 0, y = - 1\<rparr>" "\<lparr>x = 7, y = 7\<rparr>" exOver exOver]
      u t s1 l reachable_examples(2) reachable_examples(5)
    by simp
qed

end
